theory Spec2Isabelle
  imports Main "HOL-Library.AList"
begin

section \<open>Python values, classes and errors\<close>

text \<open>
  The runtime values that reach the repository: field values of records, filter values
  and raw document fields. A dict keeps its insertion order and has string keys, so it is
  an association list. Floats are left out of the value universe (the class \<open>float\<close> is
  still there for declared types).
\<close>

datatype pyclass =
  C_object | C_NoneType | C_bool | C_int | C_float | C_str | C_datetime | C_list | C_dict

datatype pyval =
    VNone
  | VBool bool
  | VInt int
  | VStr string
  | VDatetime int
  | VList "pyval list"
  | VDict "(string \<times> pyval) list"

type_synonym dict = "(string \<times> pyval) list"

fun type_of :: "pyval \<Rightarrow> pyclass" where
  "type_of VNone = C_NoneType"
| "type_of (VBool b) = C_bool"
| "type_of (VInt i) = C_int"
| "type_of (VStr s) = C_str"
| "type_of (VDatetime t) = C_datetime"
| "type_of (VList xs) = C_list"
| "type_of (VDict d) = C_dict"

text \<open>The method resolution order of the builtin classes: \<open>bool\<close> is a subclass of \<open>int\<close>.\<close>

fun mro :: "pyclass \<Rightarrow> pyclass list" where
  "mro C_object = [C_object]"
| "mro C_bool = [C_bool, C_int, C_object]"
| "mro c = [c, C_object]"

text \<open>
  What \<open>safe_annotation\<close> hands to \<open>FieldPath\<close> and \<open>where\<close> hands to \<open>isinstance\<close>:
  a class, or the special form \<open>typing.Any\<close>.
\<close>

datatype type_tag = Class pyclass | typing_Any

datatype py_error =
    TypeError_value_does_not_match pyval type_tag
  | TypeError_Any_cannot_be_used_with_isinstance
  | AttributeError_field_does_not_exist string string
  | AttributeError_no_attribute string
  | RecursionError
  | ValidationError string
  | AlreadyExists string
  | StoreError string

text \<open>
  The builtin \<open>isinstance(value, t)\<close>. For a class it looks the class up in the method
  resolution order of the value's type. For \<open>typing.Any\<close> it raises
  \<open>TypeError("typing.Any cannot be used with isinstance()")\<close>: \<open>typing.Any\<close> refuses
  instance checks in every Python version.
\<close>

fun isinstance :: "pyval \<Rightarrow> type_tag \<Rightarrow> py_error + bool" where
  "isinstance v (Class c) = Inr (c \<in> set (mro (type_of v)))"
| "isinstance v typing_Any = Inl TypeError_Any_cannot_be_used_with_isinstance"

section \<open>Record types\<close>

text \<open>
  Modelled from the spec: the record (de)serialization library (pydantic's \<open>BaseModel\<close>)
  is not under src/. A record type has a name and an ordered table \<open>model_fields\<close> from
  field name to field info; a field info carries the field's annotation and, when the field
  is optional, the value its default (or default factory) supplies. An annotation is absent
  (\<open>None\<close>), a class, \<open>typing.Any\<close>, or anything else that is not a class (a union, an
  optional, a parameterised container, an unresolved forward reference), kept as its text.
\<close>

datatype annotation = Ann_None | Ann_Class pyclass | Ann_Any | Ann_Other string

record field_info =
  fi_annotation :: annotation
  fi_default :: "pyval option"

record pydantic_class =
  cls_name :: string
  model_fields :: "(string \<times> field_info) list"

section \<open>Typed field references\<close>

record FieldPath =
  fp_name :: string
  fp_type :: type_tag

text \<open>\<open>FieldPath.__str__\<close>\<close>

definition FieldPath_str :: "FieldPath \<Rightarrow> string" where
  "FieldPath_str self = fp_name self"

text \<open>
  \<open>safe_annotation\<close>: \<open>None\<close> gives \<open>object\<close>; a class or \<open>typing.Any\<close> is returned as
  it is; everything else gives \<open>object\<close>.
\<close>

fun safe_annotation :: "annotation \<Rightarrow> type_tag" where
  "safe_annotation Ann_None = Class C_object"
| "safe_annotation (Ann_Class c) = Class c"
| "safe_annotation Ann_Any = typing_Any"
| "safe_annotation (Ann_Other s) = Class C_object"

text \<open>
  A \<open>FieldRef\<close> object is its instance dictionary: \<open>__init__\<close> stores \<open>model_class\<close>
  and then sets one attribute per field, in the order of \<open>model_fields\<close>; a later
  \<open>setattr\<close> on the same name replaces the earlier value.
\<close>

datatype attribute = Attr_model_class pydantic_class | Attr_FieldPath FieldPath

type_synonym FieldRef = "(string \<times> attribute) list"

definition FieldRef_init :: "pydantic_class \<Rightarrow> FieldRef" where
  "FieldRef_init mc =
     foldl (\<lambda>self (field_name, fi).
              AList.update field_name
                (Attr_FieldPath \<lparr>fp_name = field_name,
                                 fp_type = safe_annotation (fi_annotation fi)\<rparr>) self)
           [(''model_class'', Attr_model_class mc)]
           (model_fields mc)"

text \<open>
  Attribute access \<open>ref.name\<close>. The instance dictionary is searched first; only when the
  name is not there does \<open>__getattr__\<close> run, and its handler raises the
  \<open>AttributeError\<close> whose message carries the name and \<open>self.model_class.__name__\<close>.
  When a field called \<open>model_class\<close> has replaced the stored class by a \<open>FieldPath\<close>,
  reading \<open>__name__\<close> off it raises a plain \<open>AttributeError\<close> instead. The names
  that the class itself answers (\<open>provided_by_class\<close> below) never reach
  \<open>__getattr__\<close>; this is the lookup of the other names.
\<close>

definition FieldRef_getattr :: "FieldRef \<Rightarrow> string \<Rightarrow> py_error + attribute" where
  "FieldRef_getattr self n =
     (case map_of self n of
        Some a \<Rightarrow> Inr a
      | None \<Rightarrow>
          (case map_of self ''model_class'' of
             Some (Attr_model_class mc) \<Rightarrow> Inl (AttributeError_field_does_not_exist n (cls_name mc))
           | Some (Attr_FieldPath p) \<Rightarrow> Inl (AttributeError_no_attribute ''__name__'')
           | None \<Rightarrow> Inl RecursionError))"


text \<open>
  The names that the class answers by itself, before the instance dictionary or
  \<open>__getattr__\<close> are asked: the names of the form \<open>__x__\<close>, which Python keeps for what
  \<open>object\<close>, \<open>Generic\<close> and the class's own \<open>__init__\<close> and \<open>__getattr__\<close> provide
  (\<open>__class__\<close>, \<open>__dict__\<close>, \<open>__init__\<close> and so on; which of them exist depends on the
  Python version), and \<open>_is_protocol\<close>, a class attribute of \<open>Generic\<close>. No field has
  such a name.
\<close>

definition provided_by_class :: "string \<Rightarrow> bool" where
  "provided_by_class n = (n = ''_is_protocol'' \<or> (take 2 n = ''__'' \<and> take 2 (rev n) = ''__''))"

section \<open>Query descriptions and the objects that hold them\<close>

text \<open>
  Modelled from the spec: the store client (\<open>google.cloud.firestore\<close>) is not under
  src/. A query description is an ordered accumulation of filter clauses, of
  (field, direction) ordering pairs and an optional result-count limit over one
  collection. \<open>where\<close>, \<open>order_by\<close> and \<open>limit\<close> of a collection reference or of a
  query each return a scan: a new description, the receiver's with the constraint added.
\<close>

type_synonym FieldFilter = "string \<times> string \<times> pyval"

record query_description =
  qd_collection :: string
  qd_filters :: "FieldFilter list"
  qd_orders :: "(string \<times> string) list"
  qd_limit :: "int option"

definition collection_query :: "string \<Rightarrow> query_description" where
  "collection_query c = \<lparr>qd_collection = c, qd_filters = [], qd_orders = [], qd_limit = None\<rparr>"

definition Query_where :: "query_description \<Rightarrow> FieldFilter \<Rightarrow> query_description" where
  "Query_where q f = q\<lparr>qd_filters := qd_filters q @ [f]\<rparr>"

definition Query_order_by :: "query_description \<Rightarrow> string \<Rightarrow> string \<Rightarrow> query_description" where
  "Query_order_by q field_path direction = q\<lparr>qd_orders := qd_orders q @ [(field_path, direction)]\<rparr>"

definition Query_limit :: "query_description \<Rightarrow> int \<Rightarrow> query_description" where
  "Query_limit q n = q\<lparr>qd_limit := Some n\<rparr>"

definition ASCENDING :: string where
  "ASCENDING = ''ASCENDING''"

text \<open>
  Objects live in a store of objects; a reference is an index into it. The builder is
  the one mutable object: its attribute \<open>_query\<close> is a reference to a collection
  reference or to a query, and \<open>fields\<close> is the field reference it was given.
\<close>

datatype object =
    CollectionReference string
  | Query query_description
  | FirestoreQueryBuilder nat FieldRef

type_synonym heap = "object list"

definition deref :: "heap \<Rightarrow> nat \<Rightarrow> object option" where
  "deref h a = (if a < length h then Some (h ! a) else None)"

definition alloc :: "heap \<Rightarrow> object \<Rightarrow> heap \<times> nat" where
  "alloc h ob = (h @ [ob], length h)"

text \<open>The description a collection reference or a query stands for.\<close>

fun description :: "object \<Rightarrow> query_description option" where
  "description (CollectionReference c) = Some (collection_query c)"
| "description (Query q) = Some q"
| "description (FirestoreQueryBuilder q flds) = None"

definition described :: "heap \<Rightarrow> nat \<Rightarrow> query_description option" where
  "described h a = (case deref h a of None \<Rightarrow> None | Some ob \<Rightarrow> description ob)"

section \<open>The query builder\<close>

text \<open>\<open>FirestoreQueryBuilder.__init__\<close>: a new builder whose \<open>_query\<close> is the collection.\<close>

definition FirestoreQueryBuilder_init :: "heap \<Rightarrow> nat \<Rightarrow> FieldRef \<Rightarrow> heap \<times> nat" where
  "FirestoreQueryBuilder_init h collection flds = alloc h (FirestoreQueryBuilder collection flds)"

text \<open>
  Every method returns its outcome (the reference it returns, or the exception it
  raises) together with the object store it leaves behind. \<open>where\<close> checks the value
  first; only then it asks the current query for the filtered one, binds \<open>_query\<close> to
  the object that call returns, and returns \<open>self\<close>.
\<close>

definition builder_where :: "heap \<Rightarrow> nat \<Rightarrow> FieldPath \<Rightarrow> string \<Rightarrow> pyval \<Rightarrow> (py_error + nat) \<times> heap" where
  "builder_where h self field op v =
     (case deref h self of
        Some (FirestoreQueryBuilder q flds) \<Rightarrow>
          (case isinstance v (fp_type field) of
             Inl e \<Rightarrow> (Inl e, h)
           | Inr False \<Rightarrow> (Inl (TypeError_value_does_not_match v (fp_type field)), h)
           | Inr True \<Rightarrow>
               (case described h q of
                  None \<Rightarrow> (Inl (AttributeError_no_attribute ''where''), h)
                | Some d \<Rightarrow>
                    (case alloc h (Query (Query_where d (FieldPath_str field, op, v))) of
                       (h', q') \<Rightarrow> (Inr self, h'[self := FirestoreQueryBuilder q' flds]))))
      | _ \<Rightarrow> (Inl (AttributeError_no_attribute ''_query''), h))"

definition order_by :: "heap \<Rightarrow> nat \<Rightarrow> FieldPath \<Rightarrow> string \<Rightarrow> (py_error + nat) \<times> heap" where
  "order_by h self field direction =
     (case deref h self of
        Some (FirestoreQueryBuilder q flds) \<Rightarrow>
          (case described h q of
             None \<Rightarrow> (Inl (AttributeError_no_attribute ''order_by''), h)
           | Some d \<Rightarrow>
               (case alloc h (Query (Query_order_by d (FieldPath_str field) direction)) of
                  (h', q') \<Rightarrow> (Inr self, h'[self := FirestoreQueryBuilder q' flds])))
      | _ \<Rightarrow> (Inl (AttributeError_no_attribute ''_query''), h))"

definition limit :: "heap \<Rightarrow> nat \<Rightarrow> int \<Rightarrow> (py_error + nat) \<times> heap" where
  "limit h self count =
     (case deref h self of
        Some (FirestoreQueryBuilder q flds) \<Rightarrow>
          (case described h q of
             None \<Rightarrow> (Inl (AttributeError_no_attribute ''limit''), h)
           | Some d \<Rightarrow>
               (case alloc h (Query (Query_limit d count)) of
                  (h', q') \<Rightarrow> (Inr self, h'[self := FirestoreQueryBuilder q' flds])))
      | _ \<Rightarrow> (Inl (AttributeError_no_attribute ''_query''), h))"

text \<open>\<open>build\<close> returns the reference held in \<open>_query\<close>.\<close>

definition build :: "heap \<Rightarrow> nat \<Rightarrow> py_error + nat" where
  "build h self =
     (case deref h self of
        Some (FirestoreQueryBuilder q flds) \<Rightarrow> Inr q
      | _ \<Rightarrow> Inl (AttributeError_no_attribute ''_query''))"

text \<open>
  A document of a scan or of a lookup: its id, whether it exists, and what \<open>to_dict()\<close>
  returns (\<open>None\<close> or the raw field map).
\<close>

record DocumentSnapshot =
  snap_id :: string
  snap_exists :: bool
  snap_to_dict :: "dict option"

text \<open>Truth value of \<open>dict | None\<close>: \<open>None\<close> and the empty dict are false.\<close>

fun truthy :: "dict option \<Rightarrow> bool" where
  "truthy None = False"
| "truthy (Some []) = False"
| "truthy (Some (kv # d)) = True"

text \<open>
  The list comprehension of \<open>execute\<close>: documents in order, the condition before the
  element, and the first exception of \<open>from_dict_func\<close> ends it.
\<close>

fun execute_comprehension ::
  "(dict option \<Rightarrow> string \<Rightarrow> py_error + 'm) \<Rightarrow> DocumentSnapshot list \<Rightarrow> py_error + 'm list" where
  "execute_comprehension from_dict_func [] = Inr []"
| "execute_comprehension from_dict_func (doc # docs) =
     (if truthy (snap_to_dict doc) then
        (case from_dict_func (snap_to_dict doc) (snap_id doc) of
           Inl e \<Rightarrow> Inl e
         | Inr m \<Rightarrow>
             (case execute_comprehension from_dict_func docs of
                Inl e \<Rightarrow> Inl e
              | Inr ms \<Rightarrow> Inr (m # ms)))
      else execute_comprehension from_dict_func docs)"

text \<open>
  \<open>execute\<close>. The scan itself is the store's work: \<open>stream\<close> is what the store answers
  for a description, a sequence of documents or a failure.
\<close>

definition execute ::
  "heap \<Rightarrow> nat \<Rightarrow> (query_description \<Rightarrow> py_error + DocumentSnapshot list) \<Rightarrow>
   (dict option \<Rightarrow> string \<Rightarrow> py_error + 'm) \<Rightarrow> py_error + 'm list" where
  "execute h self stream from_dict_func =
     (case build h self of
        Inl e \<Rightarrow> Inl e
      | Inr q \<Rightarrow>
          (case described h q of
             None \<Rightarrow> Inl (AttributeError_no_attribute ''stream'')
           | Some d \<Rightarrow>
               (case stream d of
                  Inl e \<Rightarrow> Inl e
                | Inr docs \<Rightarrow> execute_comprehension from_dict_func docs)))"

section \<open>Records and their construction\<close>

text \<open>
  Modelled from the spec: pydantic's construction and dump are not under src/. A record
  instance is the dict of its field values, in the order of \<open>model_fields\<close>.
  \<open>cls(**data)\<close> goes through the declared fields in order: a field present in the data
  is validated against its annotation, a field that is missing takes its default, and a
  required field that is missing or a value that is refused raises \<open>ValidationError\<close>;
  keys that are not fields are ignored. The validation of one value against an annotation
  (which may accept the value, convert it or refuse it) is the library's own, so it is the
  parameter \<open>validate\<close>. \<open>model_dump(exclude=...)\<close> is the dict of the field values
  without the excluded names.
\<close>

type_synonym model = dict

type_synonym validator = "annotation \<Rightarrow> pyval \<Rightarrow> pyval option"

fun validate_fields :: "validator \<Rightarrow> (string \<times> field_info) list \<Rightarrow> dict \<Rightarrow> py_error + model" where
  "validate_fields validate [] data = Inr []"
| "validate_fields validate ((n, fi) # fs) data =
     (case (case map_of data n of
              Some v \<Rightarrow> validate (fi_annotation fi) v
            | None \<Rightarrow> fi_default fi) of
        None \<Rightarrow> Inl (ValidationError n)
      | Some v \<Rightarrow>
          (case validate_fields validate fs data of
             Inl e \<Rightarrow> Inl e
           | Inr m \<Rightarrow> Inr ((n, v) # m)))"

definition construct :: "validator \<Rightarrow> pydantic_class \<Rightarrow> dict \<Rightarrow> py_error + model" where
  "construct validate cls data = validate_fields validate (model_fields cls) data"

definition model_dump :: "model \<Rightarrow> string list \<Rightarrow> dict" where
  "model_dump m exclude = filter (\<lambda>(k, v). k \<notin> set exclude) m"

text \<open>
  A valid record of a class: it has the class's fields, in order and each once, and
  validation leaves each of its values as it is.
\<close>

definition valid_model :: "validator \<Rightarrow> pydantic_class \<Rightarrow> model \<Rightarrow> bool" where
  "valid_model validate cls m =
     (distinct (map fst (model_fields cls)) \<and>
      map fst m = map fst (model_fields cls) \<and>
      list_all2 (\<lambda>(n, fi) (k, v). validate (fi_annotation fi) v = Some v) (model_fields cls) m)"

text \<open>The record \<open>m\<close> with its \<open>id\<close> field, if it has one, set to the string \<open>i\<close>.\<close>

definition with_id :: "model \<Rightarrow> string \<Rightarrow> model" where
  "with_id m i = map (\<lambda>(k, v). if k = ''id'' then (k, VStr i) else (k, v)) m"

section \<open>The repository\<close>

record FirestoreRepository =
  collection_name :: string
  model_class :: pydantic_class

text \<open>\<open>fields()\<close>\<close>

definition repo_fields :: "FirestoreRepository \<Rightarrow> FieldRef" where
  "repo_fields self = FieldRef_init (model_class self)"

text \<open>
  \<open>_to_dict\<close>: the dump without \<open>id\<close>, then the loop over its items that stores every
  \<open>datetime\<close> value back under its own key.
\<close>

definition to_dict :: "model \<Rightarrow> dict" where
  "to_dict m =
     (let data = model_dump m [''id''] in
      foldl (\<lambda>data (key, v).
               if isinstance v (Class C_datetime) = Inr True then AList.update key v data
               else data)
            data data)"

text \<open>
  \<open>_from_dict\<close>: a missing or empty map is replaced by the empty dict, \<open>id\<close> is set to
  the document id, and the class is constructed from the result.
\<close>

definition from_dict :: "validator \<Rightarrow> FirestoreRepository \<Rightarrow> dict option \<Rightarrow> string \<Rightarrow> py_error + model" where
  "from_dict validate self data doc_id =
     (let data = (if \<not> truthy data then [] else (case data of Some d \<Rightarrow> d | None \<Rightarrow> []))
      in construct validate (model_class self) (AList.update ''id'' (VStr doc_id) data))"

text \<open>
  Modelled from the spec: the documents of the repository's collection, held by the store
  (not under src/), are pairs of an id and a raw map. \<open>document(id).get()\<close> answers whether
  the document exists and with which map; \<open>create\<close> adds a document and refuses an id that
  is taken.
\<close>

type_synonym collection = "(string \<times> dict) list"

definition document_get :: "collection \<Rightarrow> string \<Rightarrow> DocumentSnapshot" where
  "document_get docs doc_id =
     (case map_of docs doc_id of
        None \<Rightarrow> \<lparr>snap_id = doc_id, snap_exists = False, snap_to_dict = None\<rparr>
      | Some d \<Rightarrow> \<lparr>snap_id = doc_id, snap_exists = True, snap_to_dict = Some d\<rparr>)"

definition document_create :: "collection \<Rightarrow> string \<Rightarrow> dict \<Rightarrow> py_error + collection" where
  "document_create docs doc_id data =
     (if map_of docs doc_id \<noteq> None then Inl (AlreadyExists doc_id)
      else Inr (docs @ [(doc_id, data)]))"

text \<open>
  \<open>create\<close>. \<open>auto_id\<close> is the id of the reference \<open>collection.document()\<close> returns.
  The outcome comes with the documents of the collection after the call.
\<close>

definition create ::
  "validator \<Rightarrow> FirestoreRepository \<Rightarrow> collection \<Rightarrow> string \<Rightarrow> model \<Rightarrow> (py_error + model) \<times> collection" where
  "create validate self docs auto_id m =
     (let data = to_dict m in
      case document_create docs auto_id data of
        Inl e \<Rightarrow> (Inl e, docs)
      | Inr docs' \<Rightarrow>
          (let model_dict = AList.update ''id'' (VStr auto_id) (model_dump m [])
           in (construct validate (model_class self) model_dict, docs')))"

definition get_by_id ::
  "validator \<Rightarrow> FirestoreRepository \<Rightarrow> collection \<Rightarrow> string \<Rightarrow> py_error + model option" where
  "get_by_id validate self docs doc_id =
     (let doc = document_get docs doc_id in
      if \<not> snap_exists doc then Inr None
      else (case from_dict validate self (snap_to_dict doc) doc_id of
              Inl e \<Rightarrow> Inl e
            | Inr m \<Rightarrow> Inr (Some m)))"

text \<open>The list comprehension of \<open>list_all\<close>: every document, no condition.\<close>

fun list_all_comprehension ::
  "(dict option \<Rightarrow> string \<Rightarrow> py_error + 'm) \<Rightarrow> DocumentSnapshot list \<Rightarrow> py_error + 'm list" where
  "list_all_comprehension from_dict_func [] = Inr []"
| "list_all_comprehension from_dict_func (doc # docs) =
     (case from_dict_func (snap_to_dict doc) (snap_id doc) of
        Inl e \<Rightarrow> Inl e
      | Inr m \<Rightarrow>
          (case list_all_comprehension from_dict_func docs of
             Inl e \<Rightarrow> Inl e
           | Inr ms \<Rightarrow> Inr (m # ms)))"

text \<open>
  \<open>list_all\<close>: the limit is passed on only when it is truthy, that is neither \<open>None\<close>
  nor \<open>0\<close>.
\<close>

definition list_all_repo ::
  "validator \<Rightarrow> FirestoreRepository \<Rightarrow> (query_description \<Rightarrow> py_error + DocumentSnapshot list) \<Rightarrow>
   int option \<Rightarrow> py_error + model list" where
  "list_all_repo validate self stream lim =
     (let query = collection_query (collection_name self);
          query = (case lim of
                     None \<Rightarrow> query
                   | Some n \<Rightarrow> if n \<noteq> 0 then Query_limit query n else query)
      in case stream query of
           Inl e \<Rightarrow> Inl e
         | Inr docs \<Rightarrow> list_all_comprehension (from_dict validate self) docs)"

text \<open>\<open>query\<close>: the builder's \<open>execute\<close> with the repository's \<open>_from_dict\<close>.\<close>

definition repo_query ::
  "validator \<Rightarrow> FirestoreRepository \<Rightarrow> heap \<Rightarrow> nat \<Rightarrow>
   (query_description \<Rightarrow> py_error + DocumentSnapshot list) \<Rightarrow> py_error + model list" where
  "repo_query validate self h builder stream = execute h builder stream (from_dict validate self)"

section \<open>Example data\<close>

text \<open>
  The base record type \<open>Model\<close> (its default factories stand as fixed values), the
  record type \<open>User{id, created_at, updated_at, name: str, age: int}\<close> over it, a record
  type \<open>Event\<close> with a field annotated \<open>Any\<close> and one annotated with
  an optional, a validator that accepts exactly the instances of a declared class, and a
  store answer that holds a fixed sequence of documents and applies the limit only.
\<close>

definition Model_fields :: "(string \<times> field_info) list" where
  "Model_fields =
     [(''id'', \<lparr>fi_annotation = Ann_Class C_str, fi_default = Some (VStr ''auto'')\<rparr>),
      (''created_at'', \<lparr>fi_annotation = Ann_Class C_datetime, fi_default = Some (VDatetime 0)\<rparr>),
      (''updated_at'', \<lparr>fi_annotation = Ann_Class C_datetime, fi_default = Some (VDatetime 0)\<rparr>)]"

definition Model :: pydantic_class where
  "Model = \<lparr>cls_name = ''Model'', model_fields = Model_fields\<rparr>"

definition User :: pydantic_class where
  "User = \<lparr>cls_name = ''User'',
           model_fields = Model_fields @
             [(''name'', \<lparr>fi_annotation = Ann_Class C_str, fi_default = None\<rparr>),
              (''age'', \<lparr>fi_annotation = Ann_Class C_int, fi_default = None\<rparr>)]\<rparr>"

definition Event :: pydantic_class where
  "Event = \<lparr>cls_name = ''Event'',
            model_fields = Model_fields @
              [(''payload'', \<lparr>fi_annotation = Ann_Any, fi_default = None\<rparr>),
               (''note'', \<lparr>fi_annotation = Ann_Other ''Optional[str]'', fi_default = Some VNone\<rparr>)]\<rparr>"

definition users :: FirestoreRepository where
  "users = \<lparr>collection_name = ''users'', model_class = User\<rparr>"

definition models :: FirestoreRepository where
  "models = \<lparr>collection_name = ''models'', model_class = Model\<rparr>"

definition alice :: model where
  "alice = [(''id'', VStr ''local''), (''created_at'', VDatetime 5), (''updated_at'', VDatetime 7),
            (''name'', VStr ''Alice''), (''age'', VInt 30)]"

definition strict_validate :: validator where
  "strict_validate a v =
     (case a of
        Ann_Class c \<Rightarrow> (if c \<in> set (mro (type_of v)) then Some v else None)
      | _ \<Rightarrow> Some v)"

definition fixed_stream :: "DocumentSnapshot list \<Rightarrow> query_description \<Rightarrow> py_error + DocumentSnapshot list" where
  "fixed_stream docs q =
     (case qd_limit q of
        None \<Rightarrow> Inr docs
      | Some n \<Rightarrow> Inr (take (nat n) docs))"

definition age_field :: FieldPath where
  "age_field = \<lparr>fp_name = ''age'', fp_type = Class C_int\<rparr>"

definition name_field :: FieldPath where
  "name_field = \<lparr>fp_name = ''name'', fp_type = Class C_str\<rparr>"

definition payload_field :: FieldPath where
  "payload_field = \<lparr>fp_name = ''payload'', fp_type = typing_Any\<rparr>"

definition alice_fields :: dict where
  "alice_fields = [(''created_at'', VDatetime 5), (''updated_at'', VDatetime 7),
                   (''name'', VStr ''Alice''), (''age'', VInt 30)]"

definition user_docs :: "DocumentSnapshot list" where
  "user_docs =
     [\<lparr>snap_id = ''u1'', snap_exists = True, snap_to_dict = Some alice_fields\<rparr>,
      \<lparr>snap_id = ''u2'', snap_exists = True, snap_to_dict = None\<rparr>,
      \<lparr>snap_id = ''u3'', snap_exists = True, snap_to_dict = Some []\<rparr>,
      \<lparr>snap_id = ''u4'', snap_exists = True, snap_to_dict = Some alice_fields\<rparr>]"

definition stored_users :: collection where
  "stored_users = [(''u1'', alice_fields)]"

definition model_docs :: "DocumentSnapshot list" where
  "model_docs =
     [\<lparr>snap_id = ''m1'', snap_exists = True,
        snap_to_dict = Some [(''created_at'', VDatetime 0), (''updated_at'', VDatetime 0)]\<rparr>,
      \<lparr>snap_id = ''m2'', snap_exists = True, snap_to_dict = None\<rparr>,
      \<lparr>snap_id = ''m3'', snap_exists = True, snap_to_dict = Some []\<rparr>]"

definition model_record :: "string \<Rightarrow> model" where
  "model_record i = [(''id'', VStr i), (''created_at'', VDatetime 0), (''updated_at'', VDatetime 0)]"

text \<open>
  An object store with a collection reference at 0 and a fresh builder on it at 1, as
  \<open>FirestoreQueryBuilder(collection, FieldRef(cls))\<close> leaves it.
\<close>

definition fresh_builder :: "pydantic_class \<Rightarrow> string \<Rightarrow> heap" where
  "fresh_builder cls c = fst (FirestoreQueryBuilder_init [CollectionReference c] 0 (FieldRef_init cls))"

section \<open>Field references: properties\<close>

lemma map_of_FieldRef_fold:
  "map_of (foldl (\<lambda>self (field_name, fi).
              AList.update field_name
                (Attr_FieldPath \<lparr>fp_name = field_name,
                                 fp_type = safe_annotation (fi_annotation fi)\<rparr>) self) init fs) n =
   (case map_of (rev fs) n of
      Some fi \<Rightarrow> Some (Attr_FieldPath \<lparr>fp_name = n, fp_type = safe_annotation (fi_annotation fi)\<rparr>)
    | None \<Rightarrow> map_of init n)"
proof (induction fs arbitrary: init)
  case Nil
  show ?case by simp
next
  case (Cons x fs)
  obtain k fi where x: "x = (k, fi)" by (cases x)
  show ?case
    by (simp add: Cons.IH x update_conv' map_add_def split: option.splits)
qed

lemma FieldRef_getattr_declared:
  assumes "distinct (map fst (model_fields T))" and "(f, fi) \<in> set (model_fields T)"
  shows "FieldRef_getattr (FieldRef_init T) f =
         Inr (Attr_FieldPath \<lparr>fp_name = f, fp_type = safe_annotation (fi_annotation fi)\<rparr>)"
proof -
  have "map_of (rev (model_fields T)) f = Some fi"
    using assms by (simp add: rev_map [symmetric])
  then show ?thesis
    by (simp add: FieldRef_getattr_def FieldRef_init_def map_of_FieldRef_fold)
qed

lemma FieldRef_getattr_undeclared:
  assumes "n \<notin> fst ` set (model_fields T)" and "n \<noteq> ''model_class''"
      and "''model_class'' \<notin> fst ` set (model_fields T)"
  shows "FieldRef_getattr (FieldRef_init T) n =
         Inl (AttributeError_field_does_not_exist n (cls_name T))"
proof -
  have a: "map_of (rev (model_fields T)) n = None"
    using assms(1) by (simp add: map_of_eq_None_iff)
  have b: "map_of (rev (model_fields T)) ''model_class'' = None"
    using assms(3) by (simp add: map_of_eq_None_iff)
  show ?thesis
    using assms(2) by (simp add: FieldRef_getattr_def FieldRef_init_def map_of_FieldRef_fold a b)
qed

lemma FieldRef_getattr_model_class:
  assumes "''model_class'' \<notin> fst ` set (model_fields T)"
  shows "FieldRef_getattr (FieldRef_init T) ''model_class'' = Inr (Attr_model_class T)"
proof -
  have "map_of (rev (model_fields T)) ''model_class'' = None"
    using assms by (simp add: map_of_eq_None_iff)
  then show ?thesis
    by (simp add: FieldRef_getattr_def FieldRef_init_def map_of_FieldRef_fold)
qed

text \<open>
  C6, as the code has it. For every record type \<open>T\<close> (its field table a dict, so each
  name once) and every field \<open>f\<close> declared on it, \<open>FieldRef(T).f\<close> is a handle whose name
  is \<open>f\<close> and whose declared type is the annotation itself when that is a class,
  \<open>typing.Any\<close> itself when the annotation is \<open>Any\<close>, and \<open>object\<close> otherwise. When
  \<open>T\<close> declares no field called \<open>model_class\<close>, the lookup of a name that is not
  declared on \<open>T\<close>, is not \<open>model_class\<close> and is not one the class answers by itself
  raises the \<open>AttributeError\<close> that carries the attempted name and the name of \<open>T\<close>,
  and the lookup of \<open>model_class\<close> returns \<open>T\<close> itself.
\<close>

theorem FieldRef_handles:
  "(distinct (map fst (model_fields T)) \<and> (f, fi) \<in> set (model_fields T) \<longrightarrow>
      FieldRef_getattr (FieldRef_init T) f =
        Inr (Attr_FieldPath \<lparr>fp_name = f,
               fp_type = (case fi_annotation fi of
                            Ann_Class c \<Rightarrow> Class c
                          | Ann_Any \<Rightarrow> typing_Any
                          | _ \<Rightarrow> Class C_object)\<rparr>)) \<and>
   (n \<notin> fst ` set (model_fields T) \<and> n \<noteq> ''model_class'' \<and> \<not> provided_by_class n \<and>
    ''model_class'' \<notin> fst ` set (model_fields T) \<longrightarrow>
      FieldRef_getattr (FieldRef_init T) n =
        Inl (AttributeError_field_does_not_exist n (cls_name T))) \<and>
   (''model_class'' \<notin> fst ` set (model_fields T) \<longrightarrow>
      FieldRef_getattr (FieldRef_init T) ''model_class'' = Inr (Attr_model_class T))"
proof -
  have "safe_annotation a =
          (case a of Ann_Class c \<Rightarrow> Class c | Ann_Any \<Rightarrow> typing_Any | _ \<Rightarrow> Class C_object)" for a
    by (cases a) simp_all
  then show ?thesis
    using FieldRef_getattr_declared [of T f fi] FieldRef_getattr_undeclared [of n T]
      FieldRef_getattr_model_class [of T]
    by simp
qed

theorem FieldRef_handles_witness:
  "distinct (map fst (model_fields User)) \<and>
   (''age'', \<lparr>fi_annotation = Ann_Class C_int, fi_default = None\<rparr>) \<in> set (model_fields User) \<and>
   FieldRef_getattr (FieldRef_init User) ''age'' =
     Inr (Attr_FieldPath \<lparr>fp_name = ''age'', fp_type = Class C_int\<rparr>) \<and>
   ''email'' \<notin> fst ` set (model_fields User) \<and> ''email'' \<noteq> ''model_class'' \<and>
   \<not> provided_by_class ''email'' \<and>
   ''model_class'' \<notin> fst ` set (model_fields User) \<and>
   FieldRef_getattr (FieldRef_init User) ''email'' =
     Inl (AttributeError_field_does_not_exist ''email'' ''User'') \<and>
   ''_foo'' \<notin> fst ` set (model_fields User) \<and> ''_foo'' \<noteq> ''model_class'' \<and>
   \<not> provided_by_class ''_foo'' \<and>
   FieldRef_getattr (FieldRef_init User) ''_foo'' =
     Inl (AttributeError_field_does_not_exist ''_foo'' ''User'') \<and>
   FieldRef_getattr (FieldRef_init User) ''model_class'' = Inr (Attr_model_class User)"
  using FieldRef_handles [of User "''age''" "\<lparr>fi_annotation = Ann_Class C_int, fi_default = None\<rparr>" "''email''"]
    FieldRef_handles [of User "''age''" "\<lparr>fi_annotation = Ann_Class C_int, fi_default = None\<rparr>" "''_foo''"]
  by (simp add: User_def Model_fields_def provided_by_class_def)

text \<open>
  C6 as stated fails at the name \<open>model_class\<close>: it is not a field of \<open>User\<close>, yet
  \<open>FieldRef(User).model_class\<close> raises nothing and returns the record type.
\<close>

theorem FieldRef_model_class_counterexample:
  "''model_class'' \<notin> fst ` set (model_fields User) \<and>
   FieldRef_getattr (FieldRef_init User) ''model_class'' = Inr (Attr_model_class User)"
  by (simp add: User_def Model_fields_def FieldRef_getattr_def FieldRef_init_def)

section \<open>The query builder: properties\<close>

lemma deref_Some_less: "deref h a = Some ob \<Longrightarrow> a < length h"
  by (simp add: deref_def split: if_splits)

lemma deref_rebind_self:
  "b < length h \<Longrightarrow> deref ((h @ [ob])[b := nb]) b = Some nb"
  by (simp add: deref_def)

lemma deref_rebind_new:
  "b < length h \<Longrightarrow> deref ((h @ [ob])[b := nb]) (length h) = Some ob"
  by (simp add: deref_def)

lemma deref_rebind_other:
  "a < length h \<Longrightarrow> a \<noteq> b \<Longrightarrow> deref ((h @ [ob])[b := nb]) a = deref h a"
  by (simp add: deref_def nth_append)

lemma builder_where_ok:
  assumes "deref h b = Some (FirestoreQueryBuilder q flds)" and "described h q = Some d"
      and "isinstance v (fp_type f) = Inr True"
  shows "builder_where h b f op v =
           (Inr b, (h @ [Query (Query_where d (fp_name f, op, v))])[b := FirestoreQueryBuilder (length h) flds])"
  using assms by (simp add: builder_where_def alloc_def FieldPath_str_def)

lemma order_by_ok:
  assumes "deref h b = Some (FirestoreQueryBuilder q flds)" and "described h q = Some d"
  shows "order_by h b g direction =
           (Inr b, (h @ [Query (Query_order_by d (fp_name g) direction)])[b := FirestoreQueryBuilder (length h) flds])"
  using assms by (simp add: order_by_def alloc_def FieldPath_str_def)

lemma limit_ok:
  assumes "deref h b = Some (FirestoreQueryBuilder q flds)" and "described h q = Some d"
  shows "limit h b n =
           (Inr b, (h @ [Query (Query_limit d n)])[b := FirestoreQueryBuilder (length h) flds])"
  using assms by (simp add: limit_def alloc_def)

lemma rebind_builder:
  assumes "deref h b = Some (FirestoreQueryBuilder q flds)"
  shows "deref ((h @ [Query d'])[b := FirestoreQueryBuilder (length h) flds]) b =
           Some (FirestoreQueryBuilder (length h) flds)"
    and "described ((h @ [Query d'])[b := FirestoreQueryBuilder (length h) flds]) (length h) = Some d'"
  using deref_Some_less [OF assms]
  by (simp_all add: deref_rebind_self described_def deref_rebind_new)

lemma rebind_keeps:
  assumes "deref h b = Some (FirestoreQueryBuilder q flds)" and "described h a = Some d"
  shows "described ((h @ [ob])[b := nb]) a = Some d"
proof -
  have "a \<noteq> b" using assms by (auto simp: described_def)
  moreover have "a < length h"
    using assms(2) by (auto simp: described_def deref_def split: if_splits)
  ultimately show ?thesis using assms(2) by (simp add: described_def deref_rebind_other)
qed

lemma builder_where_keeps:
  assumes "deref h b = Some (FirestoreQueryBuilder q flds)" and "described h a = Some d"
  shows "described (snd (builder_where h b f op v)) a = Some d"
proof (cases "isinstance v (fp_type f) = Inr True \<and> described h q \<noteq> None")
  case True
  then obtain dq where "described h q = Some dq" by auto
  with True assms show ?thesis
    by (simp add: builder_where_ok rebind_keeps)
next
  case False
  then have "snd (builder_where h b f op v) = h"
    using assms(1) by (auto simp: builder_where_def split: sum.splits bool.splits option.splits)
  then show ?thesis using assms(2) by simp
qed

lemma order_by_keeps:
  assumes "deref h b = Some (FirestoreQueryBuilder q flds)" and "described h a = Some d"
  shows "described (snd (order_by h b g direction)) a = Some d"
proof (cases "described h q")
  case None
  then have "snd (order_by h b g direction) = h"
    using assms(1) by (simp add: order_by_def)
  then show ?thesis using assms(2) by simp
next
  case (Some dq)
  with assms show ?thesis by (simp add: order_by_ok rebind_keeps)
qed

lemma limit_keeps:
  assumes "deref h b = Some (FirestoreQueryBuilder q flds)" and "described h a = Some d"
  shows "described (snd (limit h b n)) a = Some d"
proof (cases "described h q")
  case None
  then have "snd (limit h b n) = h"
    using assms(1) by (simp add: limit_def)
  then show ?thesis using assms(2) by simp
next
  case (Some dq)
  with assms show ?thesis by (simp add: limit_ok rebind_keeps)
qed

lemma build_Inr: "build h b = Inr q \<Longrightarrow> \<exists>flds. deref h b = Some (FirestoreQueryBuilder q flds)"
  by (auto simp: build_def split: option.splits object.splits)

lemma fresh_builder_eq:
  "fresh_builder cls c = [CollectionReference c, FirestoreQueryBuilder 0 (FieldRef_init cls)]"
  by (simp add: fresh_builder_def FirestoreQueryBuilder_init_def alloc_def)

lemma fresh_builder_deref:
  "deref (fresh_builder cls c) 1 = Some (FirestoreQueryBuilder 0 (FieldRef_init cls))"
  "deref (fresh_builder cls c) (Suc 0) = Some (FirestoreQueryBuilder 0 (FieldRef_init cls))"
  "described (fresh_builder cls c) 0 = Some (collection_query c)"
  by (simp_all add: fresh_builder_eq deref_def described_def)



text \<open>
  The scenario of the spec: on \<open>User\<close>, \<open>where(age, ">=", 18)\<close> is accepted, and
  \<open>where(name, "==", 42)\<close> is refused.
\<close>

lemma where_User_scenario:
  "fst (builder_where (fresh_builder User ''users'') 1 age_field ''>='' (VInt 18)) = Inr 1"
  "fst (builder_where (fresh_builder User ''users'') 1 name_field ''=='' (VInt 42)) =
     Inl (TypeError_value_does_not_match (VInt 42) (Class C_str))"
  by (simp_all add: builder_where_def fresh_builder_deref age_field_def name_field_def alloc_def)

text \<open>
  C3 at a field annotated \<open>Any\<close>: \<open>safe_annotation\<close> keeps \<open>typing.Any\<close>, the handle
  carries it, and \<open>where\<close> on that field raises the \<open>TypeError\<close> of \<open>isinstance\<close>, here
  for the value 5. The check is not disabled on such a field; it fails for every value.
\<close>

theorem where_Any_field_raises:
  "safe_annotation Ann_Any = typing_Any \<and>
   FieldRef_getattr (FieldRef_init Event) ''payload'' = Inr (Attr_FieldPath payload_field) \<and>
   builder_where (fresh_builder Event ''events'') 1 payload_field ''=='' (VInt 5) =
     (Inl TypeError_Any_cannot_be_used_with_isinstance, fresh_builder Event ''events'')"
  by (simp add: Event_def Model_fields_def FieldRef_getattr_def payload_field_def
      builder_where_def fresh_builder_eq deref_def FieldRef_init_def)

text \<open>
  Where the declared type resolved to \<open>object\<close> (no annotation, or an annotation that is
  not a class), every value passes the check.
\<close>

lemma where_object_field_accepts:
  assumes "deref h b = Some (FirestoreQueryBuilder q flds)" and "described h q = Some d"
      and "fp_type f = Class C_object"
  shows "fst (builder_where h b f op v) = Inr b"
proof -
  have "isinstance v (fp_type f) = Inr True"
    using assms(3) by (cases "type_of v") simp_all
  then show ?thesis using assms(1,2) by (simp add: builder_where_ok)
qed

lemma where_Any_field_always_raises:
  assumes "deref h b = Some (FirestoreQueryBuilder q flds)" and "fp_type f = typing_Any"
  shows "builder_where h b f op v = (Inl TypeError_Any_cannot_be_used_with_isinstance, h)"
  using assms by (simp add: builder_where_def)

text \<open>
  C7. On a builder that holds a description \<open>d\<close>, the chain
  \<open>where(f, op, v).order_by(g, direction).limit(n)\<close> with a value that passes the type
  check returns the builder itself at each of the three calls, and \<open>build()\<close> then gives
  the one description that is \<open>d\<close> with the filter clause and the ordering pair appended
  and the limit set.
\<close>

theorem chain_accumulates:
  assumes "deref h b = Some (FirestoreQueryBuilder q flds)"
      and "described h q = Some d"
      and "isinstance v (fp_type f) = Inr True"
  shows "\<exists>h1 h2 h3 q3.
           builder_where h b f op v = (Inr b, h1) \<and>
           order_by h1 b g direction = (Inr b, h2) \<and>
           limit h2 b n = (Inr b, h3) \<and>
           build h3 b = Inr q3 \<and>
           described h3 q3 =
             Some (d\<lparr>qd_filters := qd_filters d @ [(fp_name f, op, v)],
                      qd_orders := qd_orders d @ [(fp_name g, direction)],
                      qd_limit := Some n\<rparr>)"
proof -
  define d1 where "d1 = Query_where d (fp_name f, op, v)"
  define h1 where "h1 = (h @ [Query d1])[b := FirestoreQueryBuilder (length h) flds]"
  define d2 where "d2 = Query_order_by d1 (fp_name g) direction"
  define h2 where "h2 = (h1 @ [Query d2])[b := FirestoreQueryBuilder (length h1) flds]"
  define d3 where "d3 = Query_limit d2 n"
  define h3 where "h3 = (h2 @ [Query d3])[b := FirestoreQueryBuilder (length h2) flds]"
  have s1: "builder_where h b f op v = (Inr b, h1)"
    using assms by (simp add: builder_where_ok h1_def d1_def)
  have b1: "deref h1 b = Some (FirestoreQueryBuilder (length h) flds)"
    and q1: "described h1 (length h) = Some d1"
    unfolding h1_def using rebind_builder [OF assms(1)] by simp_all
  have s2: "order_by h1 b g direction = (Inr b, h2)"
    using b1 q1 by (simp add: order_by_ok h2_def d2_def)
  have b2: "deref h2 b = Some (FirestoreQueryBuilder (length h1) flds)"
    and q2: "described h2 (length h1) = Some d2"
    unfolding h2_def using rebind_builder [OF b1] by simp_all
  have s3: "limit h2 b n = (Inr b, h3)"
    using b2 q2 by (simp add: limit_ok h3_def d3_def)
  have b3: "deref h3 b = Some (FirestoreQueryBuilder (length h2) flds)"
    and q3: "described h3 (length h2) = Some d3"
    unfolding h3_def using rebind_builder [OF b2] by simp_all
  have bd: "build h3 b = Inr (length h2)"
    using b3 by (simp add: build_def)
  have "d3 = d\<lparr>qd_filters := qd_filters d @ [(fp_name f, op, v)],
                qd_orders := qd_orders d @ [(fp_name g, direction)],
                qd_limit := Some n\<rparr>"
    by (simp add: d3_def d2_def d1_def Query_limit_def Query_order_by_def Query_where_def)
  with s1 s2 s3 bd q3 show ?thesis by blast
qed

theorem chain_accumulates_witness:
  "deref (fresh_builder User ''users'') 1 = Some (FirestoreQueryBuilder 0 (FieldRef_init User)) \<and>
   described (fresh_builder User ''users'') 0 = Some (collection_query ''users'') \<and>
   isinstance (VInt 18) (fp_type age_field) = Inr True \<and>
   (\<exists>h1 h2 h3 q3.
      builder_where (fresh_builder User ''users'') 1 age_field ''>='' (VInt 18) = (Inr 1, h1) \<and>
      order_by h1 1 name_field ASCENDING = (Inr 1, h2) \<and>
      limit h2 1 10 = (Inr 1, h3) \<and>
      build h3 1 = Inr q3 \<and>
      described h3 q3 =
        Some \<lparr>qd_collection = ''users'', qd_filters = [(''age'', ''>='', VInt 18)],
              qd_orders = [(''name'', ''ASCENDING'')], qd_limit = Some 10\<rparr>)"
proof -
  have a: "deref (fresh_builder User ''users'') 1 = Some (FirestoreQueryBuilder 0 (FieldRef_init User))"
    by (rule fresh_builder_deref)
  have b: "described (fresh_builder User ''users'') 0 = Some (collection_query ''users'')"
    by (rule fresh_builder_deref)
  have c: "isinstance (VInt 18) (fp_type age_field) = Inr True"
    by (simp add: age_field_def)
  show ?thesis
    using a b c
      chain_accumulates [OF a b c, where op = "''>=''" and g = name_field
        and direction = ASCENDING and n = 10]
    by (simp add: collection_query_def age_field_def name_field_def ASCENDING_def)
qed

text \<open>
  C2, as the code has it. \<open>build()\<close> returns the reference the builder holds in
  \<open>_query\<close>, not a copy. A later \<open>where\<close>, \<open>order_by\<close> or \<open>limit\<close> on the builder
  does not change the object behind that reference: whatever the call's outcome, the
  object still describes the query as it did when \<open>build()\<close> returned. The call binds
  \<open>_query\<close> to the new object the store client returns, so it is the next \<open>build()\<close>
  that gives another reference, to the description with the constraint added.
\<close>

theorem build_result_keeps_description:
  assumes "build h b = Inr q" and "described h q = Some d"
  shows "(\<exists>flds. deref h b = Some (FirestoreQueryBuilder q flds)) \<and>
         described (snd (builder_where h b f op v)) q = Some d \<and>
         described (snd (order_by h b g direction)) q = Some d \<and>
         described (snd (limit h b n)) q = Some d \<and>
         (isinstance v (fp_type f) = Inr True \<longrightarrow>
            (\<exists>q1. build (snd (builder_where h b f op v)) b = Inr q1 \<and> q1 \<noteq> q \<and>
                  described (snd (builder_where h b f op v)) q1 =
                    Some (Query_where d (fp_name f, op, v)))) \<and>
         (\<exists>q1. build (snd (order_by h b g direction)) b = Inr q1 \<and> q1 \<noteq> q \<and>
               described (snd (order_by h b g direction)) q1 =
                 Some (Query_order_by d (fp_name g) direction)) \<and>
         (\<exists>q1. build (snd (limit h b n)) b = Inr q1 \<and> q1 \<noteq> q \<and>
               described (snd (limit h b n)) q1 = Some (Query_limit d n))"
proof -
  from build_Inr [OF assms(1)] obtain flds
    where b: "deref h b = Some (FirestoreQueryBuilder q flds)" ..
  have "q < length h"
    using assms(2) by (auto simp: described_def deref_def split: if_splits)
  then have ne: "length h \<noteq> q" by simp
  have w: "\<exists>q1. build (snd (builder_where h b f op v)) b = Inr q1 \<and> q1 \<noteq> q \<and>
                described (snd (builder_where h b f op v)) q1 = Some (Query_where d (fp_name f, op, v))"
    if t: "isinstance v (fp_type f) = Inr True"
  proof -
    have "builder_where h b f op v =
            (Inr b, (h @ [Query (Query_where d (fp_name f, op, v))])[b := FirestoreQueryBuilder (length h) flds])"
      using b assms(2) t by (rule builder_where_ok)
    then have "build (snd (builder_where h b f op v)) b = Inr (length h)"
      and "described (snd (builder_where h b f op v)) (length h) = Some (Query_where d (fp_name f, op, v))"
      using rebind_builder [OF b] by (simp_all add: build_def)
    with ne show ?thesis by blast
  qed
  have o: "\<exists>q1. build (snd (order_by h b g direction)) b = Inr q1 \<and> q1 \<noteq> q \<and>
                described (snd (order_by h b g direction)) q1 = Some (Query_order_by d (fp_name g) direction)"
  proof -
    have "order_by h b g direction =
            (Inr b, (h @ [Query (Query_order_by d (fp_name g) direction)])[b := FirestoreQueryBuilder (length h) flds])"
      using b assms(2) by (rule order_by_ok)
    then have "build (snd (order_by h b g direction)) b = Inr (length h)"
      and "described (snd (order_by h b g direction)) (length h) = Some (Query_order_by d (fp_name g) direction)"
      using rebind_builder [OF b] by (simp_all add: build_def)
    with ne show ?thesis by blast
  qed
  have l: "\<exists>q1. build (snd (limit h b n)) b = Inr q1 \<and> q1 \<noteq> q \<and>
                described (snd (limit h b n)) q1 = Some (Query_limit d n)"
  proof -
    have "limit h b n =
            (Inr b, (h @ [Query (Query_limit d n)])[b := FirestoreQueryBuilder (length h) flds])"
      using b assms(2) by (rule limit_ok)
    then have "build (snd (limit h b n)) b = Inr (length h)"
      and "described (snd (limit h b n)) (length h) = Some (Query_limit d n)"
      using rebind_builder [OF b] by (simp_all add: build_def)
    with ne show ?thesis by blast
  qed
  show ?thesis
    using b w o l builder_where_keeps [OF b assms(2)] order_by_keeps [OF b assms(2)]
      limit_keeps [OF b assms(2)]
    by blast
qed

theorem build_result_keeps_description_witness:
  "build (fresh_builder User ''users'') 1 = Inr 0 \<and>
   described (fresh_builder User ''users'') 0 = Some (collection_query ''users'') \<and>
   isinstance (VInt 18) (fp_type age_field) = Inr True \<and>
   described (snd (builder_where (fresh_builder User ''users'') 1 age_field ''>='' (VInt 18))) 0 =
     Some (collection_query ''users'') \<and>
   described (snd (order_by (fresh_builder User ''users'') 1 name_field ASCENDING)) 0 =
     Some (collection_query ''users'') \<and>
   described (snd (limit (fresh_builder User ''users'') 1 10)) 0 = Some (collection_query ''users'') \<and>
   (\<exists>q1. build (snd (limit (fresh_builder User ''users'') 1 10)) 1 = Inr q1 \<and> q1 \<noteq> 0 \<and>
         described (snd (limit (fresh_builder User ''users'') 1 10)) q1 =
           Some (Query_limit (collection_query ''users'') 10))"
proof -
  have a: "build (fresh_builder User ''users'') 1 = Inr 0"
    by (simp add: build_def fresh_builder_deref)
  have b: "described (fresh_builder User ''users'') 0 = Some (collection_query ''users'')"
    by (rule fresh_builder_deref)
  have c: "isinstance (VInt 18) (fp_type age_field) = Inr True"
    by (simp add: age_field_def)
  show ?thesis
    using a b c
      build_result_keeps_description [OF a b, where f = age_field and op = "''>=''"
        and v = "VInt 18" and g = name_field and direction = ASCENDING and n = 10]
    by simp
qed

text \<open>
  C2 as stated fails on a fresh builder over the collection \<open>users\<close>: \<open>build()\<close> returns
  the collection reference; after \<open>where(age, ">=", 18)\<close> succeeds on the builder, that
  object still describes the bare collection, without any filter, and the filter is on the
  new object the builder holds.
\<close>

theorem build_result_counterexample:
  "build (fresh_builder User ''users'') 1 = Inr 0 \<and>
   fst (builder_where (fresh_builder User ''users'') 1 age_field ''>='' (VInt 18)) = Inr 1 \<and>
   described (snd (builder_where (fresh_builder User ''users'') 1 age_field ''>='' (VInt 18))) 0 =
     Some (collection_query ''users'') \<and>
   qd_filters (collection_query ''users'') = [] \<and>
   build (snd (builder_where (fresh_builder User ''users'') 1 age_field ''>='' (VInt 18))) 1 = Inr 2 \<and>
   described (snd (builder_where (fresh_builder User ''users'') 1 age_field ''>='' (VInt 18))) 2 =
     Some (Query_where (collection_query ''users'') (''age'', ''>='', VInt 18))"
  by (simp add: fresh_builder_eq build_def deref_def builder_where_def described_def
      age_field_def alloc_def FieldPath_str_def collection_query_def)


section \<open>Executing a query: properties\<close>

lemma truthy_iff: "truthy x \<longleftrightarrow> x \<noteq> None \<and> x \<noteq> Some []"
  by (cases x rule: truthy.cases) simp_all

lemma execute_comprehension_decoded:
  assumes "\<forall>doc \<in> set docs. truthy (snap_to_dict doc) \<longrightarrow> f (snap_to_dict doc) (snap_id doc) = Inr (g doc)"
  shows "execute_comprehension f docs = Inr (map g (filter (\<lambda>doc. truthy (snap_to_dict doc)) docs))"
  using assms by (induction docs) simp_all

lemma execute_comprehension_filter:
  "execute_comprehension f (filter (\<lambda>doc. truthy (snap_to_dict doc)) docs) = execute_comprehension f docs"
  by (induction docs) (simp_all split: sum.splits)

lemma execute_stream:
  assumes "deref h self = Some (FirestoreQueryBuilder q flds)" and "described h q = Some d"
      and "stream d = Inr docs"
  shows "execute h self stream f = execute_comprehension f docs"
  using assms by (simp add: execute_def build_def)

text \<open>
  C4. Let the store answer the builder's description with the documents \<open>docs\<close>. When
  \<open>from_dict_func\<close> decodes every document whose raw map is present and non-empty,
  \<open>execute\<close> returns exactly those decoded records, in the order of \<open>docs\<close>. In any
  case \<open>execute\<close> does what it does on \<open>docs\<close> without the documents whose map is
  absent or empty: such a document adds no entry and raises nothing, whatever
  \<open>from_dict_func\<close> would do with it.
\<close>

theorem execute_skips_empty:
  assumes "deref h self = Some (FirestoreQueryBuilder q flds)"
      and "described h q = Some d"
      and "stream d = Inr docs"
  shows "((\<forall>doc \<in> set docs. snap_to_dict doc \<noteq> None \<and> snap_to_dict doc \<noteq> Some [] \<longrightarrow>
             from_dict_func (snap_to_dict doc) (snap_id doc) = Inr (g doc)) \<longrightarrow>
          execute h self stream from_dict_func =
            Inr (map g (filter (\<lambda>doc. snap_to_dict doc \<noteq> None \<and> snap_to_dict doc \<noteq> Some []) docs))) \<and>
         execute h self stream from_dict_func =
           execute_comprehension from_dict_func
             (filter (\<lambda>doc. snap_to_dict doc \<noteq> None \<and> snap_to_dict doc \<noteq> Some []) docs)"
proof -
  have "execute h self stream from_dict_func = execute_comprehension from_dict_func docs"
    using assms by (rule execute_stream)
  then show ?thesis
    using execute_comprehension_decoded [of docs from_dict_func g]
      execute_comprehension_filter [of from_dict_func docs]
    by (simp add: truthy_iff)
qed

theorem execute_skips_empty_witness:
  "deref (fresh_builder User ''users'') 1 = Some (FirestoreQueryBuilder 0 (FieldRef_init User)) \<and>
   described (fresh_builder User ''users'') 0 = Some (collection_query ''users'') \<and>
   fixed_stream user_docs (collection_query ''users'') = Inr user_docs \<and>
   execute (fresh_builder User ''users'') 1 (fixed_stream user_docs) (from_dict strict_validate users) =
     Inr [with_id alice ''u1'', with_id alice ''u4'']"
proof -
  have a: "deref (fresh_builder User ''users'') 1 = Some (FirestoreQueryBuilder 0 (FieldRef_init User))"
    by (rule fresh_builder_deref)
  have b: "described (fresh_builder User ''users'') 0 = Some (collection_query ''users'')"
    by (rule fresh_builder_deref)
  have c: "fixed_stream user_docs (collection_query ''users'') = Inr user_docs"
    by (simp add: fixed_stream_def collection_query_def)
  have d: "\<forall>doc \<in> set user_docs. snap_to_dict doc \<noteq> None \<and> snap_to_dict doc \<noteq> Some [] \<longrightarrow>
             from_dict strict_validate users (snap_to_dict doc) (snap_id doc) =
               Inr (with_id alice (snap_id doc))"
    by (simp add: user_docs_def from_dict_def construct_def users_def User_def Model_fields_def
        strict_validate_def with_id_def alice_def alice_fields_def)
  have "execute (fresh_builder User ''users'') 1 (fixed_stream user_docs) (from_dict strict_validate users) =
          Inr (map (\<lambda>doc. with_id alice (snap_id doc))
                 (filter (\<lambda>doc. snap_to_dict doc \<noteq> None \<and> snap_to_dict doc \<noteq> Some []) user_docs))"
    using execute_skips_empty [of "fresh_builder User ''users''" 1 0 "FieldRef_init User"
        "collection_query ''users''" "fixed_stream user_docs" user_docs
        "from_dict strict_validate users" "\<lambda>doc. with_id alice (snap_id doc)", OF a b c] d
    by blast
  then show ?thesis
    using a b c by (simp add: user_docs_def alice_fields_def)
qed

section \<open>The repository: properties\<close>

lemma datetime_loop_id:
  assumes "distinct (map fst d)" and "set xs \<subseteq> set d"
  shows "foldl (\<lambda>data (key, v).
               if isinstance v (Class C_datetime) = Inr True then AList.update key v data
               else data) d xs = d"
  using assms(2)
proof (induction xs)
  case Nil
  show ?case by simp
next
  case (Cons x xs)
  obtain k v where x: "x = (k, v)" by (cases x)
  with Cons.prems have "(k, v) \<in> set d" by simp
  with assms(1) have "map_of d k = Some v" by simp
  then have "AList.update k v d = d" by (rule update_triv)
  with Cons x show ?case by simp
qed

lemma distinct_filter_keys:
  "distinct (map fst m) \<Longrightarrow> distinct (map fst (filter P m))"
  by (induction m) auto

lemma to_dict_eq:
  assumes "distinct (map fst m)"
  shows "to_dict m = filter (\<lambda>(k, v). k \<noteq> ''id'') m"
proof -
  have "distinct (map fst (filter (\<lambda>(k, v). k \<noteq> ''id'') m))"
    using assms by (rule distinct_filter_keys)
  then have "foldl (\<lambda>data (key, v).
               if isinstance v (Class C_datetime) = Inr True then AList.update key v data
               else data) (filter (\<lambda>(k, v). k \<noteq> ''id'') m) (filter (\<lambda>(k, v). k \<noteq> ''id'') m)
             = filter (\<lambda>(k, v). k \<noteq> ''id'') m"
    by (rule datetime_loop_id) simp
  then show ?thesis
    by (simp add: to_dict_def model_dump_def)
qed

lemma validate_fields_ok:
  assumes "list_all2 (\<lambda>(n, fi) (k, v). k = n \<and>
             (\<exists>w. map_of data n = Some w \<and> validate (fi_annotation fi) w = Some v)) fs m"
  shows "validate_fields validate fs data = Inr m"
  using assms
proof (induction fs m rule: list_all2_induct)
  case Nil
  show ?case by simp
next
  case (Cons x xs y ys)
  then show ?case by (cases x; cases y) auto
qed

lemma construct_with_id:
  assumes v: "valid_model validate cls r"
      and i: "\<And>fi. map_of (model_fields cls) ''id'' = Some fi \<Longrightarrow>
                validate (fi_annotation fi) (VStr i) = Some (VStr i)"
      and d: "map_of data = (map_of r)(''id'' \<mapsto> VStr i)"
  shows "construct validate cls data = Inr (with_id r i)"
proof -
  let ?fs = "model_fields cls"
  from v have dist: "distinct (map fst ?fs)" and keys: "map fst r = map fst ?fs"
    and vals: "list_all2 (\<lambda>(n, fi) (k, v). validate (fi_annotation fi) v = Some v) ?fs r"
    by (simp_all add: valid_model_def)
  have len: "length ?fs = length r" using vals by (rule list_all2_lengthD)
  have distr: "distinct (map fst r)" using dist keys by simp
  have "list_all2 (\<lambda>(n, fi) (k, v). k = n \<and>
          (\<exists>w. map_of data n = Some w \<and> validate (fi_annotation fi) w = Some v))
          ?fs (with_id r i)"
  proof (rule list_all2_all_nthI)
    show "length ?fs = length (with_id r i)" using len by (simp add: with_id_def)
  next
    fix j assume j: "j < length ?fs"
    obtain n fi where f: "?fs ! j = (n, fi)" by (cases "?fs ! j")
    obtain k w where r: "r ! j = (k, w)" by (cases "r ! j")
    from j len have jr: "j < length r" by simp
    have kn: "k = n"
      using keys j jr f r by (metis fst_conv nth_map)
    have vw: "validate (fi_annotation fi) w = Some w"
      using list_all2_nthD [OF vals j] f r by simp
    have mem: "(n, fi) \<in> set ?fs" using j f by (metis nth_mem)
    have memr: "(k, w) \<in> set r" using jr r by (metis nth_mem)
    show "(case ?fs ! j of (n, fi) \<Rightarrow> \<lambda>(k, v). k = n \<and>
            (\<exists>w. map_of data n = Some w \<and> validate (fi_annotation fi) w = Some v))
            (with_id r i ! j)"
    proof (cases "n = ''id''")
      case True
      have "map_of ?fs ''id'' = Some fi" using dist mem True by simp
      then have "validate (fi_annotation fi) (VStr i) = Some (VStr i)" by (rule i)
      then show ?thesis using True kn f r jr d by (simp add: with_id_def)
    next
      case False
      have "map_of r k = Some w" using distr memr by simp
      then show ?thesis using False kn f r jr d vw by (simp add: with_id_def)
    qed
  qed
  then show ?thesis by (simp add: construct_def validate_fields_ok)
qed

lemma map_of_filter_not_id:
  "map_of (filter (\<lambda>(k, v). k \<noteq> ''id'') r) = (map_of r)(''id'' := None)"
  by (induction r) (auto simp: fun_eq_iff)

lemma with_id_same:
  assumes dist: "distinct (map fst r)" and i: "map_of r ''id'' = Some (VStr i)"
  shows "with_id r i = r"
proof -
  have "(\<lambda>(k, v). if k = ''id'' then (k, VStr i) else (k, v)) x = x" if "x \<in> set r" for x
  proof (cases x)
    case (Pair k v)
    with that dist have "map_of r k = Some v" by simp
    with i Pair show ?thesis by auto
  qed
  then show ?thesis unfolding with_id_def by (rule map_idI)
qed

lemma with_id_changed:
  assumes dist: "distinct (map fst r)" and k: "''id'' \<in> fst ` set r" and e: "with_id r i = r"
  shows "map_of r ''id'' = Some (VStr i)"
proof -
  from k obtain v where v: "(''id'', v) \<in> set r" by auto
  have "map (\<lambda>(k, v). if k = ''id'' then (k, VStr i) else (k, v)) r = map (\<lambda>x. x) r"
    using e by (simp add: with_id_def)
  then have "(\<lambda>(k, v). if k = ''id'' then (k, VStr i) else (k, v)) (''id'', v) = (''id'', v)"
    using v by (simp only: map_eq_conv)
  then have "v = VStr i" by simp
  with dist v show ?thesis by simp
qed

lemma from_dict_to_dict:
  assumes v: "valid_model validate (model_class self) r"
      and i: "\<And>fi. map_of (model_fields (model_class self)) ''id'' = Some fi \<Longrightarrow>
                validate (fi_annotation fi) (VStr i) = Some (VStr i)"
  shows "from_dict validate self (Some (to_dict r)) i = Inr (with_id r i)"
proof -
  have distr: "distinct (map fst r)" using v by (simp add: valid_model_def)
  let ?d = "filter (\<lambda>(k, v). k \<noteq> ''id'') r"
  have "map_of (AList.update ''id'' (VStr i) ?d) = (map_of r)(''id'' \<mapsto> VStr i)"
    by (simp add: update_conv' map_of_filter_not_id)
  then have c: "construct validate (model_class self) (AList.update ''id'' (VStr i) ?d) = Inr (with_id r i)"
    using v i by (intro construct_with_id) auto
  have "from_dict validate self (Some ?d) i =
          construct validate (model_class self) (AList.update ''id'' (VStr i) ?d)"
    by (cases ?d) (simp_all add: from_dict_def)
  then show ?thesis using c by (simp add: to_dict_eq [OF distr])
qed

lemma valid_alice: "valid_model strict_validate (model_class users) alice"
  by (simp add: valid_model_def users_def User_def Model_fields_def alice_def strict_validate_def)

lemma users_id_accepts:
  "\<forall>fi. map_of (model_fields (model_class users)) ''id'' = Some fi \<longrightarrow>
        strict_validate (fi_annotation fi) (VStr i) = Some (VStr i)"
  by (simp add: users_def User_def Model_fields_def strict_validate_def)

text \<open>
  C5. For a valid record \<open>r\<close> of the repository's class and an identifier \<open>i\<close> that the
  class's \<open>id\<close> field (if it has one) accepts as it is, \<open>_from_dict(_to_dict(r), i)\<close> is
  \<open>r\<close> with its \<open>id\<close> field set to \<open>i\<close>, hence \<open>r\<close> itself when \<open>r.id\<close> is \<open>i\<close>
  (and, for a record that has an \<open>id\<close> field, only then);
  and \<open>_to_dict(r)\<close> is \<open>r\<close>'s fields without \<open>id\<close>, every other field, timestamps
  included, as it was.
\<close>

theorem to_dict_from_dict_roundtrip:
  assumes "valid_model validate (model_class self) r"
      and "\<forall>fi. map_of (model_fields (model_class self)) ''id'' = Some fi \<longrightarrow>
                validate (fi_annotation fi) (VStr i) = Some (VStr i)"
  shows "from_dict validate self (Some (to_dict r)) i = Inr (with_id r i) \<and>
         (map_of r ''id'' = Some (VStr i) \<longrightarrow> from_dict validate self (Some (to_dict r)) i = Inr r) \<and>
         (''id'' \<in> fst ` set r \<and> from_dict validate self (Some (to_dict r)) i = Inr r \<longrightarrow>
            map_of r ''id'' = Some (VStr i)) \<and>
         to_dict r = filter (\<lambda>(k, v). k \<noteq> ''id'') r"
proof -
  have distr: "distinct (map fst r)" using assms(1) by (simp add: valid_model_def)
  have "from_dict validate self (Some (to_dict r)) i = Inr (with_id r i)"
    using assms by (intro from_dict_to_dict) auto
  then show ?thesis
    using with_id_same [OF distr, of i] with_id_changed [OF distr, of i] to_dict_eq [OF distr]
    by simp
qed

theorem to_dict_from_dict_roundtrip_witness:
  "valid_model strict_validate (model_class users) alice \<and>
   from_dict strict_validate users (Some (to_dict alice)) ''u1'' =
     Inr [(''id'', VStr ''u1''), (''created_at'', VDatetime 5), (''updated_at'', VDatetime 7),
          (''name'', VStr ''Alice''), (''age'', VInt 30)] \<and>
   from_dict strict_validate users (Some (to_dict alice)) ''local'' = Inr alice \<and>
   to_dict alice =
     [(''created_at'', VDatetime 5), (''updated_at'', VDatetime 7),
      (''name'', VStr ''Alice''), (''age'', VInt 30)]"
proof -
  note rt = to_dict_from_dict_roundtrip [OF valid_alice users_id_accepts]
  have e1: "with_id alice ''u1'' =
      [(''id'', VStr ''u1''), (''created_at'', VDatetime 5), (''updated_at'', VDatetime 7),
       (''name'', VStr ''Alice''), (''age'', VInt 30)]"
    by (simp add: with_id_def alice_def)
  have e2: "filter (\<lambda>(k, v). k \<noteq> ''id'') alice =
      [(''created_at'', VDatetime 5), (''updated_at'', VDatetime 7),
       (''name'', VStr ''Alice''), (''age'', VInt 30)]"
    by (simp add: alice_def)
  have e3: "map_of alice ''id'' = Some (VStr ''local'')"
    by (simp add: alice_def)
  have "from_dict strict_validate users (Some (to_dict alice)) ''u1'' = Inr (with_id alice ''u1'')"
    using rt [of "''u1''"] by blast
  then have a: "from_dict strict_validate users (Some (to_dict alice)) ''u1'' =
      Inr [(''id'', VStr ''u1''), (''created_at'', VDatetime 5), (''updated_at'', VDatetime 7),
           (''name'', VStr ''Alice''), (''age'', VInt 30)]"
    by (simp only: e1)
  have b: "from_dict strict_validate users (Some (to_dict alice)) ''local'' = Inr alice"
    using rt [of "''local''"] e3 by blast
  have "to_dict alice = filter (\<lambda>(k, v). k \<noteq> ''id'') alice"
    using rt [of "''u1''"] by blast
  then have c: "to_dict alice =
      [(''created_at'', VDatetime 5), (''updated_at'', VDatetime 7),
       (''name'', VStr ''Alice''), (''age'', VInt 30)]"
    by (simp only: e2)
  show ?thesis
    by (intro conjI) (rule valid_alice a b c)+
qed

text \<open>
  C9. For a valid record \<open>m\<close>, an identifier \<open>auto_id\<close> that the store generated and
  that no document has, and a class whose \<open>id\<close> field accepts it as it is: \<open>create(m)\<close>
  adds one document under \<open>auto_id\<close> whose raw map is \<open>m\<close>'s fields without \<open>id\<close>,
  and returns \<open>m\<close> with its \<open>id\<close> field set to \<open>auto_id\<close>. The map written has no
  key \<open>id\<close>, and an \<open>id\<close> in the result is \<open>auto_id\<close>: the id that \<open>m\<close> came with
  is neither written nor returned.
\<close>

theorem create_replaces_id:
  assumes "valid_model validate (model_class self) m"
      and "\<forall>fi. map_of (model_fields (model_class self)) ''id'' = Some fi \<longrightarrow>
                validate (fi_annotation fi) (VStr auto_id) = Some (VStr auto_id)"
      and "map_of docs auto_id = None"
  shows "create validate self docs auto_id m =
           (Inr (with_id m auto_id), docs @ [(auto_id, filter (\<lambda>(k, v). k \<noteq> ''id'') m)]) \<and>
         map_of (filter (\<lambda>(k, v). k \<noteq> ''id'') m) ''id'' = None \<and>
         (\<forall>v. (''id'', v) \<in> set (with_id m auto_id) \<longrightarrow> v = VStr auto_id)"
proof -
  have distr: "distinct (map fst m)" using assms(1) by (simp add: valid_model_def)
  have "map_of (AList.update ''id'' (VStr auto_id) m) = (map_of m)(''id'' \<mapsto> VStr auto_id)"
    by (simp add: update_conv')
  then have c: "construct validate (model_class self) (AList.update ''id'' (VStr auto_id) m) =
      Inr (with_id m auto_id)"
    using assms(1,2) by (intro construct_with_id) auto
  have "create validate self docs auto_id m =
           (Inr (with_id m auto_id), docs @ [(auto_id, filter (\<lambda>(k, v). k \<noteq> ''id'') m)])"
    using assms(3) c
    by (simp add: create_def document_create_def model_dump_def to_dict_eq [OF distr])
  moreover have "map_of (filter (\<lambda>(k, v). k \<noteq> ''id'') m) ''id'' = None"
    by (simp add: map_of_filter_not_id)
  moreover have "\<forall>v. (''id'', v) \<in> set (with_id m auto_id) \<longrightarrow> v = VStr auto_id"
    by (auto simp: with_id_def split: if_splits)
  ultimately show ?thesis by blast
qed

theorem create_replaces_id_witness:
  "valid_model strict_validate (model_class users) alice \<and>
   map_of stored_users ''u9'' = None \<and>
   map_of alice ''id'' = Some (VStr ''local'') \<and>
   create strict_validate users stored_users ''u9'' alice =
     (Inr [(''id'', VStr ''u9''), (''created_at'', VDatetime 5), (''updated_at'', VDatetime 7),
           (''name'', VStr ''Alice''), (''age'', VInt 30)],
      [(''u1'', alice_fields), (''u9'', alice_fields)])"
proof -
  have n: "map_of stored_users ''u9'' = None"
    by (simp add: stored_users_def)
  have e1: "with_id alice ''u9'' =
      [(''id'', VStr ''u9''), (''created_at'', VDatetime 5), (''updated_at'', VDatetime 7),
       (''name'', VStr ''Alice''), (''age'', VInt 30)]"
    by (simp add: with_id_def alice_def)
  have e2: "stored_users @ [(''u9'', filter (\<lambda>(k, v). k \<noteq> ''id'') alice)] =
      [(''u1'', alice_fields), (''u9'', alice_fields)]"
    by (simp add: stored_users_def alice_def alice_fields_def)
  have e3: "map_of alice ''id'' = Some (VStr ''local'')"
    by (simp add: alice_def)
  have "create strict_validate users stored_users ''u9'' alice =
          (Inr (with_id alice ''u9''), stored_users @ [(''u9'', filter (\<lambda>(k, v). k \<noteq> ''id'') alice)])"
    using create_replaces_id [OF valid_alice users_id_accepts n] by blast
  then have c: "create strict_validate users stored_users ''u9'' alice =
     (Inr [(''id'', VStr ''u9''), (''created_at'', VDatetime 5), (''updated_at'', VDatetime 7),
           (''name'', VStr ''Alice''), (''age'', VInt 30)],
      [(''u1'', alice_fields), (''u9'', alice_fields)])"
    by (simp only: e1 e2)
  show ?thesis
    by (intro conjI) (rule valid_alice n e3 c)+
qed

text \<open>
  C8. \<open>get_by_id\<close> on an identifier under which the collection has no document returns
  \<open>None\<close> and raises nothing; on an identifier whose document has the raw map \<open>d\<close> it
  returns what \<open>_from_dict(d, doc_id)\<close> decodes (and raises what that raises).
\<close>

theorem get_by_id_absent_is_None:
  "(map_of docs doc_id = None \<longrightarrow> get_by_id validate self docs doc_id = Inr None) \<and>
   (map_of docs doc_id = Some d \<longrightarrow>
      get_by_id validate self docs doc_id =
        (case from_dict validate self (Some d) doc_id of
           Inl e \<Rightarrow> Inl e
         | Inr m \<Rightarrow> Inr (Some m)))"
  by (simp add: get_by_id_def document_get_def)

theorem get_by_id_absent_is_None_witness:
  "map_of stored_users ''u2'' = None \<and>
   get_by_id strict_validate users stored_users ''u2'' = Inr None \<and>
   map_of stored_users ''u1'' = Some alice_fields \<and>
   get_by_id strict_validate users stored_users ''u1'' =
     Inr (Some [(''id'', VStr ''u1''), (''created_at'', VDatetime 5), (''updated_at'', VDatetime 7),
                (''name'', VStr ''Alice''), (''age'', VInt 30)])"
proof -
  have a: "map_of stored_users ''u2'' = None"
    by (simp add: stored_users_def)
  have b: "map_of stored_users ''u1'' = Some alice_fields"
    by (simp add: stored_users_def)
  have d: "from_dict strict_validate users (Some alice_fields) ''u1'' =
      Inr [(''id'', VStr ''u1''), (''created_at'', VDatetime 5), (''updated_at'', VDatetime 7),
           (''name'', VStr ''Alice''), (''age'', VInt 30)]"
    by (simp add: from_dict_def construct_def users_def User_def Model_fields_def
        strict_validate_def alice_fields_def)
  have n: "get_by_id strict_validate users stored_users ''u2'' = Inr None"
    using get_by_id_absent_is_None [of stored_users "''u2''" strict_validate users] a by blast
  have "get_by_id strict_validate users stored_users ''u1'' =
          (case from_dict strict_validate users (Some alice_fields) ''u1'' of
             Inl e \<Rightarrow> Inl e
           | Inr m \<Rightarrow> Inr (Some m))"
    using get_by_id_absent_is_None [of stored_users "''u1''" strict_validate users alice_fields] b
    by blast
  then have s: "get_by_id strict_validate users stored_users ''u1'' =
     Inr (Some [(''id'', VStr ''u1''), (''created_at'', VDatetime 5), (''updated_at'', VDatetime 7),
                (''name'', VStr ''Alice''), (''age'', VInt 30)])"
    by (simp add: d)
  show ?thesis
    by (intro conjI) (rule a n b s)+
qed

lemma list_all_comprehension_decoded:
  assumes "\<forall>doc \<in> set docs. f (snap_to_dict doc) (snap_id doc) = Inr (g doc)"
  shows "list_all_comprehension f docs = Inr (map g docs)"
  using assms by (induction docs) simp_all

lemma from_dict_falsy:
  "\<not> truthy data \<Longrightarrow>
   from_dict validate self data doc_id = construct validate (model_class self) [(''id'', VStr doc_id)]"
  by (simp add: from_dict_def)

text \<open>
  C10. Let \<open>docs\<close> be what the store answers for the bare collection. \<open>list_all(0)\<close> is
  \<open>list_all(None)\<close>; when every document of \<open>docs\<close> decodes, it returns the decoded
  records of all of \<open>docs\<close>, in order. A document whose raw map is absent is decoded from
  the map that holds the id alone, not skipped. For a positive \<open>n\<close> the store is asked
  for the collection limited to \<open>n\<close>, and when its answer has at most \<open>n\<close> documents,
  all decodable, \<open>list_all(n)\<close> returns their records, at most \<open>n\<close>.
\<close>

theorem list_all_zero_limit:
  assumes "stream (collection_query (collection_name self)) = Inr docs"
  shows "list_all_repo validate self stream (Some 0) = list_all_repo validate self stream None \<and>
         ((\<forall>doc \<in> set docs. from_dict validate self (snap_to_dict doc) (snap_id doc) = Inr (g doc)) \<longrightarrow>
            list_all_repo validate self stream (Some 0) = Inr (map g docs)) \<and>
         (\<forall>doc \<in> set docs. snap_to_dict doc = None \<longrightarrow>
            from_dict validate self (snap_to_dict doc) (snap_id doc) =
              construct validate (model_class self) [(''id'', VStr (snap_id doc))]) \<and>
         (0 < n \<and> stream (Query_limit (collection_query (collection_name self)) n) = Inr ldocs \<and>
          length ldocs \<le> nat n \<and>
          (\<forall>doc \<in> set ldocs. from_dict validate self (snap_to_dict doc) (snap_id doc) = Inr (g doc)) \<longrightarrow>
            list_all_repo validate self stream (Some n) = Inr (map g ldocs) \<and>
            length (map g ldocs) \<le> nat n)"
proof -
  have a: "list_all_repo validate self stream (Some 0) = list_all_repo validate self stream None"
    by (simp add: list_all_repo_def)
  have b: "list_all_repo validate self stream (Some 0) =
      list_all_comprehension (from_dict validate self) docs"
    using assms by (simp add: list_all_repo_def)
  have c: "list_all_repo validate self stream (Some n) =
      list_all_comprehension (from_dict validate self) ldocs"
    if "0 < n" "stream (Query_limit (collection_query (collection_name self)) n) = Inr ldocs"
    using that by (simp add: list_all_repo_def)
  show ?thesis
    using a b c list_all_comprehension_decoded [of docs "from_dict validate self" g]
      list_all_comprehension_decoded [of ldocs "from_dict validate self" g]
    by (simp add: from_dict_falsy)
qed

theorem list_all_zero_limit_witness:
  "fixed_stream model_docs (collection_query (collection_name models)) = Inr model_docs \<and>
   list_all_repo strict_validate models (fixed_stream model_docs) (Some 0) =
     Inr [model_record ''m1'', model_record ''m2'', model_record ''m3''] \<and>
   list_all_repo strict_validate models (fixed_stream model_docs) None =
     Inr [model_record ''m1'', model_record ''m2'', model_record ''m3''] \<and>
   fixed_stream model_docs (Query_limit (collection_query (collection_name models)) 2) =
     Inr (take 2 model_docs) \<and>
   list_all_repo strict_validate models (fixed_stream model_docs) (Some 2) =
     Inr [model_record ''m1'', model_record ''m2'']"
proof -
  have s: "fixed_stream model_docs (collection_query (collection_name models)) = Inr model_docs"
    by (simp add: fixed_stream_def collection_query_def)
  have l: "fixed_stream model_docs (Query_limit (collection_query (collection_name models)) 2) =
      Inr (take 2 model_docs)"
    by (simp add: fixed_stream_def collection_query_def Query_limit_def)
  have d: "\<forall>doc \<in> set model_docs.
      from_dict strict_validate models (snap_to_dict doc) (snap_id doc) = Inr (model_record (snap_id doc))"
    by (simp add: model_docs_def from_dict_def construct_def models_def Model_def Model_fields_def
        strict_validate_def model_record_def)
  have t: "take 2 model_docs =
      [\<lparr>snap_id = ''m1'', snap_exists = True,
         snap_to_dict = Some [(''created_at'', VDatetime 0), (''updated_at'', VDatetime 0)]\<rparr>,
       \<lparr>snap_id = ''m2'', snap_exists = True, snap_to_dict = None\<rparr>]"
    by (simp add: model_docs_def)
  have d2: "\<forall>doc \<in> set (take 2 model_docs).
      from_dict strict_validate models (snap_to_dict doc) (snap_id doc) = Inr (model_record (snap_id doc))"
    using d by (auto dest: in_set_takeD)
  have len: "length (take 2 model_docs) \<le> nat 2" by simp
  note th = list_all_zero_limit [where stream = "fixed_stream model_docs" and self = models
      and docs = model_docs and validate = strict_validate
      and g = "\<lambda>doc. model_record (snap_id doc)" and n = 2 and ldocs = "take 2 model_docs",
      OF s]
  have z: "list_all_repo strict_validate models (fixed_stream model_docs) (Some 0) =
      Inr (map (\<lambda>doc. model_record (snap_id doc)) model_docs)"
    using th d by blast
  have e: "list_all_repo strict_validate models (fixed_stream model_docs) (Some 0) =
      list_all_repo strict_validate models (fixed_stream model_docs) None"
    using th by blast
  have p: "list_all_repo strict_validate models (fixed_stream model_docs) (Some 2) =
      Inr (map (\<lambda>doc. model_record (snap_id doc)) (take 2 model_docs))"
    using th l d2 len by simp
  have z': "list_all_repo strict_validate models (fixed_stream model_docs) (Some 0) =
     Inr [model_record ''m1'', model_record ''m2'', model_record ''m3'']"
    using z by (simp add: model_docs_def)
  have n': "list_all_repo strict_validate models (fixed_stream model_docs) None =
     Inr [model_record ''m1'', model_record ''m2'', model_record ''m3'']"
    using z' e by simp
  have p': "list_all_repo strict_validate models (fixed_stream model_docs) (Some 2) =
     Inr [model_record ''m1'', model_record ''m2'']"
    using p by (simp add: t)
  show ?thesis
    by (intro conjI) (rule s z' n' l p')+
qed


end
